theory Spec2Isabelle
  imports Complex_Main
begin

section \<open>Dates: the part of the moment library that controllers/utils.js uses\<close>

text \<open>
  The controller handles dates through the third-party moment library. A moment is
  an instant (milliseconds since the Unix epoch) together with its mode: in local
  mode (\<open>None\<close>) it is displayed at the offset that the zone of the process has at
  that instant; in fixed-offset mode (\<open>Some\<close> minutes), which is how \<open>zone(0)\<close>
  leaves it, at that offset. Only the operations the controller calls are modelled:
  \<open>zone(0)\<close>, \<open>clone()\<close>, \<open>add\<close> of days and weeks, \<open>format('YYYY-MM-DD')\<close>
  and \<open>diff(_, 'weeks')\<close>.

  The clock and the zone of the process are a parameter. \<open>offset_at\<close> is the offset
  from UTC, in minutes, in force at an instant (what \<open>getTimezoneOffset\<close> reports,
  negated). \<open>offset_of_local\<close> is the offset with which the JavaScript Date turns a
  local, wall-clock time value into an instant when \<open>setDate\<close> is called; where the
  zone changes its offset the two need not agree.
\<close>

record moment =
  instant :: int
  fixed_offset :: "int option"

record clock =
  now_ms :: int
  offset_at :: "int \<Rightarrow> int"
  offset_of_local :: "int \<Rightarrow> int"

definition msPerDay :: int where
  "msPerDay = 86400000"

definition msPerWeek :: int where
  "msPerWeek = 604800000"

definition utcOffset :: "clock \<Rightarrow> moment \<Rightarrow> int" where
  "utcOffset clk m =
     (case fixed_offset m of Some minutes \<Rightarrow> minutes | None \<Rightarrow> offset_at clk (instant m))"

text \<open>The wall-clock time of a moment, as a time value.\<close>

definition local_ms :: "clock \<Rightarrow> moment \<Rightarrow> int" where
  "local_ms clk m = instant m + utcOffset clk m * 60000"

definition zone0 :: "moment \<Rightarrow> moment" where
  "zone0 m = m\<lparr>fixed_offset := Some 0\<rparr>"

definition clone :: "moment \<Rightarrow> moment" where
  "clone m = m"

text \<open>
  \<open>add(n, 'days')\<close> keeps the wall-clock time: in local mode the Date's \<open>setDate\<close>
  moves the local time value by n days and resolves it to an instant again, so the
  step is not always n times 24 hours. At a fixed offset it is. Weeks are added as
  seven days each.
\<close>

definition add_days :: "clock \<Rightarrow> int \<Rightarrow> moment \<Rightarrow> moment" where
  "add_days clk n m =
     (case fixed_offset m of
        Some minutes \<Rightarrow> m\<lparr>instant := instant m + n * msPerDay\<rparr>
      | None \<Rightarrow>
          (let l = local_ms clk m + n * msPerDay
           in m\<lparr>instant := l - offset_of_local clk l * 60000\<rparr>))"

definition add_weeks :: "clock \<Rightarrow> int \<Rightarrow> moment \<Rightarrow> moment" where
  "add_weeks clk n m = add_days clk (7 * n) m"

text \<open>The number of the day (days since 1970-01-01) a moment displays.\<close>

definition day_number :: "clock \<Rightarrow> moment \<Rightarrow> int" where
  "day_number clk m = local_ms clk m div msPerDay"

text \<open>
  The proleptic Gregorian calendar, in both directions: the day number of a date,
  and the (year, month, day) of a day number.
\<close>

definition days_from_civil :: "int \<Rightarrow> int \<Rightarrow> int \<Rightarrow> int" where
  "days_from_civil y m d =
     (let y' = (if m \<le> 2 then y - 1 else y);
          era = y' div 400;
          yoe = y' - era * 400;
          doy = (153 * (if m > 2 then m - 3 else m + 9) + 2) div 5 + d - 1;
          doe = yoe * 365 + yoe div 4 - yoe div 100 + doy
      in era * 146097 + doe - 719468)"

definition civil_from_days :: "int \<Rightarrow> int \<times> int \<times> int" where
  "civil_from_days z =
     (let z' = z + 719468;
          era = z' div 146097;
          doe = z' mod 146097;
          yoe = (doe - doe div 1460 + doe div 36524 - doe div 146096) div 365;
          doy = doe - (365 * yoe + yoe div 4 - yoe div 100);
          mp = (5 * doy + 2) div 153;
          d = doy - (153 * mp + 2) div 5 + 1;
          m = (if mp < 10 then mp + 3 else mp - 9);
          y = yoe + era * 400
      in (if m \<le> 2 then y + 1 else y, m, d))"

text \<open>Decimal digits of a natural number, and moment's zero-filled number format.\<close>

fun dec :: "nat \<Rightarrow> string" where
  "dec n = (if n < 10 then [''0123456789'' ! n]
            else dec (n div 10) @ [''0123456789'' ! (n mod 10)])"

declare dec.simps [simp del]

definition zeroFill :: "int \<Rightarrow> nat \<Rightarrow> string" where
  "zeroFill number targetLength =
     (let absNumber = dec (nat \<bar>number\<bar>)
      in (if number \<ge> 0 then [] else ''-'')
         @ replicate (targetLength - length absNumber) CHR ''0'' @ absNumber)"

definition format_day :: "int \<Rightarrow> string" where
  "format_day z =
     (case civil_from_days z of
        (y, m, d) \<Rightarrow> zeroFill y 4 @ ''-'' @ zeroFill m 2 @ ''-'' @ zeroFill d 2)"

definition format_YYYY_MM_DD :: "clock \<Rightarrow> moment \<Rightarrow> string" where
  "format_YYYY_MM_DD clk m = format_day (day_number clk m)"

text \<open>
  \<open>a.diff(b, 'weeks')\<close>: b is first put in the mode of a; the difference of the
  instants is then taken without the difference of the two offsets, which makes it the
  difference of the wall-clock times, and the weeks in it are counted, truncated
  towards zero.
\<close>

definition diff_weeks :: "clock \<Rightarrow> moment \<Rightarrow> moment \<Rightarrow> int" where
  "diff_weeks clk a b =
     (let that_offset = (case fixed_offset a of
                           Some minutes \<Rightarrow> minutes
                         | None \<Rightarrow> offset_at clk (instant b));
          zoneDelta = (that_offset - utcOffset clk a) * 60000;
          delta = instant a - instant b - zoneDelta
      in if delta < 0 then - ((- delta) div msPerWeek) else delta div msPerWeek)"

text \<open>
  \<open>moment()\<close> is the current instant and \<open>moment(x)\<close> the instant x, both in local
  mode; \<open>moment(undefined)\<close> is \<open>moment()\<close>.
\<close>

definition moment_now :: "clock \<Rightarrow> moment" where
  "moment_now clk = \<lparr>instant = now_ms clk, fixed_offset = None\<rparr>"

definition moment_of :: "clock \<Rightarrow> int option \<Rightarrow> moment" where
  "moment_of clk x =
     (case x of
        None \<Rightarrow> moment_now clk
      | Some t \<Rightarrow> \<lparr>instant = t, fixed_offset = None\<rparr>)"

section \<open>Query formatter\<close>

text \<open>
  \<open>formatDate\<close> calls \<open>date.zone(0)\<close>, which changes the moment it is given, so the
  model returns the text together with the changed moment.
\<close>

definition formatDate :: "clock \<Rightarrow> moment \<Rightarrow> string \<times> moment" where
  "formatDate clk date = (let date' = zone0 date in (format_YYYY_MM_DD clk date', date'))"

definition formatDateRange ::
  "clock \<Rightarrow> string \<Rightarrow> moment \<Rightarrow> moment \<Rightarrow> string \<times> moment" where
  "formatDateRange clk field startDate endDate =
     (case formatDate clk startDate of
        (start, startDate') \<Rightarrow>
          (case formatDate clk (add_days clk 1 (clone endDate)) of
             (end, _) \<Rightarrow>
               (field @ ''<date>:['' @ start @ '' TO '' @ end @ '']'', startDate')))"

section \<open>Derived-metric calculators\<close>

text \<open>
  A document or entity: the attributes the controller reads or writes. An absent
  attribute is \<open>None\<close>.
\<close>

record document =
  patient_id :: string
  form :: string
  reported_date :: "int option"
  lmp_date :: "int option"
  visits :: "nat option"
  high_risk :: "bool option"

record flagged =
  approximate :: "bool option"

record weeks = flagged +
  number :: int

record edd = flagged +
  date :: moment

definition getWeeksPregnant :: "clock \<Rightarrow> document \<Rightarrow> weeks" where
  "getWeeksPregnant clk d =
     (if form d = ''R'' then
        \<lparr>approximate = Some True,
         number = diff_weeks clk (moment_now clk) (moment_of clk (reported_date d))\<rparr>
      else
        \<lparr>approximate = None,
         number = diff_weeks clk (moment_now clk) (moment_of clk (lmp_date d)) - 2\<rparr>)"

definition getEDD :: "clock \<Rightarrow> document \<Rightarrow> edd" where
  "getEDD clk d =
     (if form d = ''R'' then
        \<lparr>approximate = Some True,
         date = add_weeks clk 40 (moment_of clk (reported_date d))\<rparr>
      else
        \<lparr>approximate = None, date = add_weeks clk 42 (moment_of clk (lmp_date d))\<rparr>)"

section \<open>The search engine and the configuration\<close>

text \<open>
  \<open>total_rows\<close> is a JavaScript number, or absent. Row counts are integers far
  below \<open>2^53\<close>, where the addition of JavaScript numbers is exact, so a number is
  an \<open>int\<close>; adding an absent value gives NaN, and NaN absorbs.
\<close>

datatype jsnum = Undefined | Num int | NaN

fun js_add :: "jsnum \<Rightarrow> jsnum \<Rightarrow> jsnum" where
  "js_add (Num a) (Num b) = Num (a + b)"
| "js_add _ _ = NaN"

text \<open>String concatenation with a value that may be \<open>undefined\<close>.\<close>

definition js_str :: "string option \<Rightarrow> string" where
  "js_str x = (case x of None \<Rightarrow> ''undefined'' | Some s \<Rightarrow> s)"

fun join :: "string \<Rightarrow> string list \<Rightarrow> string" where
  "join sep [] = []"
| "join sep [x] = x"
| "join sep (x # y # ys) = x @ sep @ join sep (y # ys)"

record row =
  doc_ref :: string
  doc :: "document option"

text \<open>What the engine hands to the callback of \<open>db.fti\<close>: an error, or a result
  that may be null and whose fields may be absent.\<close>

record raw_result =
  raw_total_rows :: "int option"
  raw_rows :: "row list option"

datatype 'e response = Failure 'e | Success "raw_result option"

record result =
  total_rows :: jsnum
  rows :: "row list"

record query_options =
  q :: "string option"
  sort_opt :: "string option"
  include_docs :: "bool option"
  limit :: "nat option"

record options = query_options +
  patientIds :: "string list option"
  startDate :: "moment option"
  endDate :: "moment option"
  district :: "string option"

text \<open>
  The engine is a parameter: given the index name and the query it answers and moves
  to its next state. The world of the module is the engine's state, the list of the
  calls made to it so far (with their answers), and the module variable
  \<open>luceneConditionalLimit\<close> (1000 at load time, changed by \<open>setup\<close>).
\<close>

type_synonym ('e, 's) engine = "string \<Rightarrow> query_options \<Rightarrow> 's \<Rightarrow> 'e response \<times> 's"

record ('e, 's) world =
  luceneConditionalLimit :: nat
  calls :: "(string \<times> query_options \<times> 'e response) list"
  engine_state :: 's

definition db_fti ::
  "('e, 's) engine \<Rightarrow> string \<Rightarrow> query_options \<Rightarrow> ('e, 's) world
     \<Rightarrow> 'e response \<times> ('e, 's) world" where
  "db_fti eng index queryOptions w =
     (case eng index queryOptions (engine_state w) of
        (r, s') \<Rightarrow>
          (r, w\<lparr>calls := calls w @ [(index, queryOptions, r)], engine_state := s'\<rparr>))"

text \<open>\<open>config.get('anc_forms')\<close>, the table of form codes, is a parameter.\<close>

definition getFormCode :: "(string \<rightharpoonup> string) \<Rightarrow> string \<Rightarrow> string option" where
  "getFormCode anc_forms key = anc_forms key"

section \<open>Chunked query executor\<close>

definition fti ::
  "('e, 's) engine \<Rightarrow> 'a query_options_scheme \<Rightarrow> ('e, 's) world
     \<Rightarrow> ('e + result) \<times> ('e, 's) world" where
  "fti eng opts w =
     (let queryOptions =
            \<lparr>q = q opts, sort_opt = sort_opt opts,
             include_docs = include_docs opts, limit = limit opts\<rparr>
      in case db_fti eng ''data_records'' queryOptions w of
           (Failure err, w') \<Rightarrow> (Inl err, w')
         | (Success None, w') \<Rightarrow> (Inr \<lparr>total_rows = Num 0, rows = []\<rparr>, w')
         | (Success (Some r), w') \<Rightarrow>
             (Inr \<lparr>total_rows = (case raw_total_rows r of
                                   None \<Rightarrow> Undefined | Some n \<Rightarrow> Num n),
                   rows = (case raw_rows r of None \<Rightarrow> [] | Some rs \<Rightarrow> rs)\<rparr>, w'))"

text \<open>\<open>items.slice(a, b)\<close> for \<open>0 \<le> a \<le> b\<close>.\<close>

definition slice :: "'a list \<Rightarrow> nat \<Rightarrow> nat \<Rightarrow> 'a list" where
  "slice items a b = take (b - a) (drop a items)"

text \<open>
  The loop of \<open>chunk\<close>. With a size of 0 the index never advances and the loop does
  not end: the value \<open>None\<close> stands for not returning.
\<close>

partial_function (option) chunk_loop ::
  "'a list \<Rightarrow> nat \<Rightarrow> nat \<Rightarrow> 'a list list \<Rightarrow> 'a list list option" where
  "chunk_loop items sz i chunks =
     (if i < length items
      then chunk_loop items sz (i + sz) (chunks @ [slice items i (i + sz)])
      else Some chunks)"

declare chunk_loop.simps [code]

definition chunk :: "'a list \<Rightarrow> nat \<Rightarrow> 'a list list option" where
  "chunk items sz = chunk_loop items sz 0 []"

text \<open>
  \<open>async.reduce\<close> of the async library: the iterator runs on the elements one after
  the other, each on the memo the previous one passed on; the first error ends the
  reduction and is passed to the final callback.
\<close>

fun async_reduce ::
  "('m \<Rightarrow> 'x \<Rightarrow> 'w \<Rightarrow> ('e + 'm) \<times> 'w) \<Rightarrow> 'x list \<Rightarrow> 'm \<Rightarrow> 'w \<Rightarrow> ('e + 'm) \<times> 'w" where
  "async_reduce f [] memo w = (Inr memo, w)"
| "async_reduce f (x # xs) memo w =
     (case f memo x w of
        (Inl err, w') \<Rightarrow> (Inl err, w')
      | (Inr memo', w') \<Rightarrow> async_reduce f xs memo' w')"

definition chunk_query :: "'a options_scheme \<Rightarrow> string list \<Rightarrow> query_options" where
  "chunk_query opts ids =
     \<lparr>q = Some (js_str (q opts) @ '' AND patient_id:('' @ join '' OR '' ids @ '')''),
      sort_opt = None, include_docs = include_docs opts, limit = None\<rparr>"

definition chunk_step ::
  "('e, 's) engine \<Rightarrow> 'a options_scheme \<Rightarrow> result \<Rightarrow> string list \<Rightarrow> ('e, 's) world
     \<Rightarrow> ('e + result) \<times> ('e, 's) world" where
  "chunk_step eng opts memo ids w =
     (case fti eng (chunk_query opts ids) w of
        (Inl err, w') \<Rightarrow> (Inl err, w')
      | (Inr res, w') \<Rightarrow>
          (Inr \<lparr>total_rows = js_add (total_rows memo) (total_rows res),
                rows = rows memo @ rows res\<rparr>, w'))"

definition ftiWithPatientIds ::
  "('e, 's) engine \<Rightarrow> 'a options_scheme \<Rightarrow> ('e, 's) world
     \<Rightarrow> (('e + result) \<times> ('e, 's) world) option" where
  "ftiWithPatientIds eng opts w =
     (case patientIds opts of
        Some ids \<Rightarrow>
          if length ids = 0 then Some (Inr \<lparr>total_rows = Num 0, rows = []\<rparr>, w)
          else (case chunk ids (luceneConditionalLimit w) of
                  None \<Rightarrow> None
                | Some chunks \<Rightarrow>
                    Some (async_reduce (chunk_step eng opts) chunks
                            \<lparr>total_rows = Num 0, rows = []\<rparr> w))
      | None \<Rightarrow> Some (fti eng opts w))"

section \<open>Domain queries\<close>

text \<open>
  What \<open>getHighRisk\<close> and \<open>getVisits\<close> pass to their callback: the array literal
  \<open>[]\<close> of the early return, or the result object of the executor. An array has no
  \<open>rows\<close> attribute.
\<close>

datatype fetched = PlainArray "row list" | ResultObject result

definition rows_of :: "fetched \<Rightarrow> row list option" where
  "rows_of x = (case x of PlainArray _ \<Rightarrow> None | ResultObject r \<Rightarrow> Some (rows r))"

definition as_fetched ::
  "(('e + result) \<times> 'w) option \<Rightarrow> (('e + fetched) \<times> 'w) option" where
  "as_fetched x =
     (case x of
        None \<Rightarrow> None
      | Some (Inl err, w) \<Rightarrow> Some (Inl err, w)
      | Some (Inr r, w) \<Rightarrow> Some (Inr (ResultObject r), w))"

definition no_options :: options where
  "no_options =
     \<lparr>q = None, sort_opt = None, include_docs = None, limit = None,
      patientIds = None, startDate = None, endDate = None, district = None\<rparr>"

definition truthy :: "string option \<Rightarrow> bool" where
  "truthy x = (case x of None \<Rightarrow> False | Some s \<Rightarrow> s \<noteq> [])"

definition getHighRisk ::
  "(string \<rightharpoonup> string) \<Rightarrow> ('e, 's) engine \<Rightarrow> options option \<Rightarrow> ('e, 's) world
     \<Rightarrow> (('e + fetched) \<times> ('e, 's) world) option" where
  "getHighRisk anc_forms eng options w =
     (case options of
        None \<Rightarrow> Some (Inr (PlainArray []), w)
      | Some opts \<Rightarrow>
          (case patientIds opts of
             None \<Rightarrow> Some (Inr (PlainArray []), w)
           | Some ids \<Rightarrow>
               if length ids = 0 then Some (Inr (PlainArray []), w)
               else as_fetched (ftiWithPatientIds eng
                      (opts\<lparr>include_docs := Some True,
                            q := Some (''form:'' @ js_str (getFormCode anc_forms ''flag''))\<rparr>) w)))"

text \<open>
  \<open>getDeliveries\<close> called with the callback alone works on an empty options object:
  that call is the argument \<open>None\<close>.
\<close>

definition getDeliveries ::
  "(string \<rightharpoonup> string) \<Rightarrow> ('e, 's) engine \<Rightarrow> clock \<Rightarrow> options option \<Rightarrow> ('e, 's) world
     \<Rightarrow> (('e + result) \<times> ('e, 's) world) option" where
  "getDeliveries anc_forms eng clk options w =
     (let opts = (case options of None \<Rightarrow> no_options | Some x \<Rightarrow> x);
          q1 = ''form:'' @ js_str (getFormCode anc_forms ''delivery'');
          q2 = (case (startDate opts, endDate opts) of
                  (Some sd, Some ed) \<Rightarrow>
                    q1 @ '' AND '' @ fst (formatDateRange clk ''reported_date'' sd ed)
                | _ \<Rightarrow> q1);
          q3 = (if truthy (district opts)
                then q2 @ '' AND district:'' @ [CHR 0x22] @ js_str (district opts) @ [CHR 0x22]
                else q2)
      in ftiWithPatientIds eng (opts\<lparr>q := Some q3\<rparr>) w)"

definition getVisits ::
  "(string \<rightharpoonup> string) \<Rightarrow> ('e, 's) engine \<Rightarrow> clock \<Rightarrow> options option \<Rightarrow> ('e, 's) world
     \<Rightarrow> (('e + fetched) \<times> ('e, 's) world) option" where
  "getVisits anc_forms eng clk options w =
     (case options of
        None \<Rightarrow> Some (Inr (PlainArray []), w)
      | Some opts \<Rightarrow>
          (case patientIds opts of
             None \<Rightarrow> Some (Inr (PlainArray []), w)
           | Some ids \<Rightarrow>
               if length ids = 0 then Some (Inr (PlainArray []), w)
               else
                 let query = ''form:'' @ js_str (getFormCode anc_forms ''visit'');
                     query' = (case startDate opts of
                                 None \<Rightarrow> query
                               | Some sd \<Rightarrow>
                                   query @ '' AND '' @
                                   fst (formatDateRange clk ''reported_date'' sd
                                          (case endDate opts of
                                             Some ed \<Rightarrow> ed
                                           | None \<Rightarrow> add_days clk 2 (moment_now clk))))
                 in as_fetched (ftiWithPatientIds eng
                      (no_options\<lparr>q := Some query', include_docs := Some True,
                                  patientIds := patientIds opts\<rparr>) w)))"

section \<open>Enrichment and join\<close>

text \<open>
  A failure seen by the caller of the join operations: the engine's error, passed on,
  or the TypeError that JavaScript throws when \<open>.patient_id\<close> is read from the absent
  \<open>doc\<close> of a row.
\<close>

datatype 'e failure = EngineFailure 'e | TypeError

text \<open>\<open>_.some(rows, \<lambda>delivery. delivery.doc.patient_id === object.patient_id)\<close>:
  left to right, stopping at the first match.\<close>

fun some_delivery :: "row list \<Rightarrow> document \<Rightarrow> 'e failure + bool" where
  "some_delivery [] object = Inr False"
| "some_delivery (delivery # rest) object =
     (case doc delivery of
        None \<Rightarrow> Inl TypeError
      | Some d \<Rightarrow>
          if patient_id d = patient_id object then Inr True
          else some_delivery rest object)"

fun reject_delivered :: "document list \<Rightarrow> row list \<Rightarrow> 'e failure + document list" where
  "reject_delivered [] deliveries = Inr []"
| "reject_delivered (object # objects) deliveries =
     (case some_delivery deliveries object of
        Inl err \<Rightarrow> Inl err
      | Inr delivered \<Rightarrow>
          (case reject_delivered objects deliveries of
             Inl err \<Rightarrow> Inl err
           | Inr undelivered \<Rightarrow>
               Inr (if delivered then undelivered else object # undelivered)))"

definition rejectDeliveries ::
  "(string \<rightharpoonup> string) \<Rightarrow> ('e, 's) engine \<Rightarrow> clock \<Rightarrow> document list \<Rightarrow> ('e, 's) world
     \<Rightarrow> (('e failure + document list) \<times> ('e, 's) world) option" where
  "rejectDeliveries anc_forms eng clk objects w =
     (if length objects = 0 then Some (Inr [], w)
      else
        (case getDeliveries anc_forms eng clk
                (Some (no_options\<lparr>patientIds := Some (map patient_id objects),
                                   include_docs := Some True\<rparr>)) w of
           None \<Rightarrow> None
         | Some (Inl err, w') \<Rightarrow> Some (Inl (EngineFailure err), w')
         | Some (Inr deliveries, w') \<Rightarrow>
             Some (reject_delivered objects (rows deliveries), w')))"

text \<open>\<open>_.findWhere(objects, {patient_id: pid})\<close>: the position of the first object
  with that identifier, if there is one.\<close>

fun findWhere :: "document list \<Rightarrow> string \<Rightarrow> nat option" where
  "findWhere [] pid = None"
| "findWhere (object # objects) pid =
     (if patient_id object = pid then Some 0
      else map_option Suc (findWhere objects pid))"

text \<open>The body of the \<open>_.each\<close> over the flag rows; the objects are changed in place.\<close>

fun each_risk :: "row list \<Rightarrow> document list \<Rightarrow> 'e failure + document list" where
  "each_risk [] objects = Inr objects"
| "each_risk (risk # rest) objects =
     (case doc risk of
        None \<Rightarrow> Inl TypeError
      | Some d \<Rightarrow>
          (case findWhere objects (patient_id d) of
             None \<Rightarrow> each_risk rest objects
           | Some i \<Rightarrow>
               each_risk rest (objects[i := (objects ! i)\<lparr>high_risk := Some True\<rparr>])))"

definition injectRisk ::
  "(string \<rightharpoonup> string) \<Rightarrow> ('e, 's) engine \<Rightarrow> document list \<Rightarrow> ('e, 's) world
     \<Rightarrow> (('e failure + document list) \<times> ('e, 's) world) option" where
  "injectRisk anc_forms eng objects w =
     (let patientIds = map patient_id objects
      in case getHighRisk anc_forms eng
                (Some (no_options\<lparr>patientIds := Some patientIds\<rparr>)) w of
           None \<Rightarrow> None
         | Some (Inl err, w') \<Rightarrow> Some (Inl (EngineFailure err), w')
         | Some (Inr risks, w') \<Rightarrow>
             (case rows_of risks of
                None \<Rightarrow> Some (Inr objects, w')
              | Some rs \<Rightarrow> Some (each_risk rs objects, w')))"

section \<open>Vocabulary of the statements\<close>

text \<open>The result object that stands for a successful answer of the engine: the
  answer itself, with the defaults for a null answer and for a missing row sequence.\<close>

definition passed_on :: "raw_result option \<Rightarrow> result" where
  "passed_on a =
     (case a of
        None \<Rightarrow> \<lparr>total_rows = Num 0, rows = []\<rparr>
      | Some r \<Rightarrow>
          \<lparr>total_rows = (case raw_total_rows r of None \<Rightarrow> Undefined | Some n \<Rightarrow> Num n),
           rows = (case raw_rows r of None \<Rightarrow> [] | Some rs \<Rightarrow> rs)\<rparr>)"

text \<open>The query that \<open>fti\<close> sends for given options: the four attributes it copies.\<close>

definition sent :: "'a query_options_scheme \<Rightarrow> query_options" where
  "sent opts =
     \<lparr>q = q opts, sort_opt = sort_opt opts,
      include_docs = include_docs opts, limit = limit opts\<rparr>"

text \<open>The patient identifiers of the documents that rows carry.\<close>

fun row_ids :: "row list \<Rightarrow> string list" where
  "row_ids [] = []"
| "row_ids (r # rs) =
     (case doc r of None \<Rightarrow> row_ids rs | Some d \<Rightarrow> patient_id d # row_ids rs)"

definition has_doc :: "row \<Rightarrow> bool" where
  "has_doc r = (doc r \<noteq> None)"

text \<open>The entity with its risk flag set.\<close>

definition marked :: "document \<Rightarrow> document" where
  "marked object = object\<lparr>high_risk := Some True\<rparr>"

text \<open>An engine for the examples: it answers from a script, one answer per call, and
  with null once the script is used up.\<close>

definition scripted :: "('e, 'e response list) engine" where
  "scripted index queryOptions script =
     (case script of [] \<Rightarrow> (Success None, []) | r # rest \<Rightarrow> (r, rest))"

definition entity :: "string \<Rightarrow> document" where
  "entity pid =
     \<lparr>patient_id = pid, form = ''P'', reported_date = None, lmp_date = None,
      visits = None, high_risk = None\<rparr>"

definition row_for :: "string \<Rightarrow> row" where
  "row_for pid = \<lparr>doc_ref = pid, doc = Some (entity pid)\<rparr>"

definition answer :: "int \<Rightarrow> row list \<Rightarrow> string response" where
  "answer n rs = Success (Some \<lparr>raw_total_rows = Some n, raw_rows = Some rs\<rparr>)"

definition world0 :: "nat \<Rightarrow> string response list \<Rightarrow> (string, string response list) world" where
  "world0 n script = \<lparr>luceneConditionalLimit = n, calls = [], engine_state = script\<rparr>"

definition lmp_record :: document where
  "lmp_record =
     \<lparr>patient_id = ''p1'', form = ''P'', reported_date = None,
      lmp_date = Some 1577880000000, visits = None, high_risk = None\<rparr>"

definition reported_record :: document where
  "reported_record =
     \<lparr>patient_id = ''p2'', form = ''R'', reported_date = Some 1580299200000,
      lmp_date = None, visits = None, high_risk = None\<rparr>"

text \<open>
  The zone America/New_York between November 2019 and March 2021, with 2020-03-11
  07:00 local time as the current instant: five hours behind UTC, four from
  2020-03-08 07:00 UTC to 2020-11-01 06:00 UTC. A wall-clock time that the change of
  offset skips or repeats is resolved with the offset in force before the change.
\<close>

definition ny_clock :: clock where
  "ny_clock =
     \<lparr>now_ms = 1583924400000,
      offset_at = (\<lambda>t. if 1583650800000 \<le> t \<and> t < 1604210400000 then - 240 else - 300),
      offset_of_local =
        (\<lambda>l. if 1583636400000 \<le> l \<and> l < 1604196000000 then - 240 else - 300)\<rparr>"


text \<open>The wall-clock time value \<open>l\<close> exists in the zone: the instant it is resolved to
  is displayed as \<open>l\<close>.\<close>

definition wall_clock_exists :: "clock \<Rightarrow> int \<Rightarrow> bool" where
  "wall_clock_exists clk l =
     (offset_at clk (l - offset_of_local clk l * 60000) = offset_of_local clk l)"





text \<open>The calls that the executor logs for chunks and the engine's answers to them.\<close>

definition logged :: "'a options_scheme \<Rightarrow> string list list \<Rightarrow> 'e response list
    \<Rightarrow> (string \<times> query_options \<times> 'e response) list" where
  "logged opts cs resps =
     map (\<lambda>(c, r). (''data_records'', chunk_query opts c, r)) (zip cs resps)"

text \<open>The patient identifiers that fetched flag records name.\<close>

definition flagged_ids :: "fetched \<Rightarrow> string set" where
  "flagged_ids risks = (case rows_of risks of None \<Rightarrow> {} | Some rs \<Rightarrow> set (row_ids rs))"

text \<open>Position \<open>i\<close> is the first one with its patient identifier.\<close>

definition first_with :: "document list \<Rightarrow> nat \<Rightarrow> bool" where
  "first_with objects i = (\<forall>j<i. patient_id (objects ! j) \<noteq> patient_id (objects ! i))"

text \<open>The state of the entities after flags for the identifiers in \<open>S\<close> were handled.\<close>

definition marks :: "string set \<Rightarrow> document list \<Rightarrow> document list \<Rightarrow> bool" where
  "marks S objects cur =
     (length cur = length objects
      \<and> (\<forall>i<length objects.
            cur ! i = (if patient_id (objects ! i) \<in> S \<and> first_with objects i
                       then marked (objects ! i) else objects ! i)))"

text \<open>Inputs of the examples.\<close>

definition abc_options :: options where
  "abc_options = no_options\<lparr>q := Some ''form:V'', patientIds := Some [''a'', ''b'', ''c'']\<rparr>"

definition abc_world :: "(string, string response list) world" where
  "abc_world = world0 2 [answer 3 [row_for ''a''], answer 4 [row_for ''c'']]"

definition failing_world :: "(string, string response list) world" where
  "failing_world = world0 1 [answer 3 [row_for ''a''], Failure ''down'', answer 4 [row_for ''c'']]"

definition acbd :: "document list" where
  "acbd = map entity [''A'', ''C'', ''B'', ''D'']"

definition acbd_options :: options where
  "acbd_options = no_options\<lparr>patientIds := Some (map patient_id acbd), include_docs := Some True\<rparr>"

definition delivered_world :: "(string, string response list) world" where
  "delivered_world = world0 2 [answer 1 [row_for ''A''], answer 1 [row_for ''B'']]"

definition acad :: "document list" where
  "acad = map entity [''A'', ''C'', ''A'', ''D'']"

definition flag_world :: "(string, string response list) world" where
  "flag_world = world0 3 [answer 1 [row_for ''A''], answer 2 [row_for ''D'', row_for ''X'']]"


section \<open>Properties of the query formatter and of the calculators\<close>








lemma day_number_add_weeks:
  assumes "fixed_offset m = None"
    and "wall_clock_exists clk (local_ms clk m + n * msPerWeek)"
  shows "day_number clk (add_weeks clk n m) = day_number clk m + 7 * n"
    and "local_ms clk (add_weeks clk n m) = local_ms clk m + n * msPerWeek"
proof -
  let ?l = "local_ms clk m + n * msPerWeek"
  have l: "local_ms clk m + 7 * n * msPerDay = ?l"
    by (simp add: msPerDay_def msPerWeek_def)
  have inst: "instant (add_weeks clk n m) = ?l - offset_of_local clk ?l * 60000"
    and fixed: "fixed_offset (add_weeks clk n m) = None"
    using assms(1) by (simp_all add: add_weeks_def add_days_def Let_def l)
  have "offset_at clk (instant (add_weeks clk n m)) = offset_of_local clk ?l"
    using assms(2) by (simp add: inst wall_clock_exists_def)
  then show loc: "local_ms clk (add_weeks clk n m) = local_ms clk m + n * msPerWeek"
    using fixed by (simp add: local_ms_def [of clk "add_weeks clk n m"] utcOffset_def inst)
  show "day_number clk (add_weeks clk n m) = day_number clk m + 7 * n"
    by (simp add: day_number_def loc msPerDay_def msPerWeek_def)
qed

text \<open>
  C2, as the code has it. For a record whose form is not \<open>'R'\<close> and whose LMP date
  falls on 2020-01-01 in the local zone, \<open>getEDD\<close> returns the moment with the
  wall-clock time of the LMP date 42 weeks later, which is a moment of 2020-10-21,
  and sets no \<open>approximate\<close> attribute. (That wall-clock time is taken to exist in
  the zone.)
\<close>

theorem getEDD_lmp:
  assumes "form d \<noteq> ''R''"
    and "lmp_date d = Some t"
    and "day_number clk (moment_of clk (lmp_date d)) = days_from_civil 2020 1 1"
    and "wall_clock_exists clk (local_ms clk (moment_of clk (lmp_date d)) + 42 * msPerWeek)"
  shows "format_YYYY_MM_DD clk (date (getEDD clk d)) = ''2020-10-21''
       \<and> local_ms clk (date (getEDD clk d))
           = local_ms clk (moment_of clk (lmp_date d)) + 42 * msPerWeek
       \<and> approximate (getEDD clk d) = None"
proof -
  let ?lmp = "moment_of clk (lmp_date d)"
  have d0: "days_from_civil 2020 1 1 = 18262"
    by (simp add: days_from_civil_def)
  have edd: "getEDD clk d = \<lparr>approximate = None, date = add_weeks clk 42 ?lmp\<rparr>"
    using assms(1) by (simp add: getEDD_def)
  have loc: "fixed_offset ?lmp = None"
    using assms(2) by (simp add: moment_of_def)
  have "day_number clk (date (getEDD clk d)) = 18556"
    using day_number_add_weeks(1) [OF loc assms(4)] assms(3) by (simp add: edd d0)
  moreover have "format_day 18556 = ''2020-10-21''"
    by code_simp
  ultimately have "format_YYYY_MM_DD clk (date (getEDD clk d)) = ''2020-10-21''"
    by (simp add: format_YYYY_MM_DD_def)
  moreover have "local_ms clk (date (getEDD clk d)) = local_ms clk ?lmp + 42 * msPerWeek"
    using day_number_add_weeks(2) [OF loc assms(4)] by (simp add: edd)
  ultimately show ?thesis
    by (simp add: edd)
qed

theorem getEDD_lmp_witness:
  "form lmp_record \<noteq> ''R''
   \<and> format_YYYY_MM_DD ny_clock (moment_of ny_clock (lmp_date lmp_record)) = ''2020-01-01''
   \<and> format_YYYY_MM_DD ny_clock (date (getEDD ny_clock lmp_record)) = ''2020-10-21''
   \<and> instant (date (getEDD ny_clock lmp_record)) = 1603278000000
   \<and> approximate (getEDD ny_clock lmp_record) = None"
proof -
  have f: "form lmp_record \<noteq> ''R''" by (simp add: lmp_record_def)
  have l: "lmp_date lmp_record = Some 1577880000000" by (simp add: lmp_record_def)
  have dn: "day_number ny_clock (moment_of ny_clock (lmp_date lmp_record))
      = days_from_civil 2020 1 1"
    by (simp add: lmp_record_def ny_clock_def moment_of_def day_number_def local_ms_def
        utcOffset_def msPerDay_def days_from_civil_def)
  have ex: "wall_clock_exists ny_clock
      (local_ms ny_clock (moment_of ny_clock (lmp_date lmp_record)) + 42 * msPerWeek)"
    by (simp add: lmp_record_def ny_clock_def moment_of_def local_ms_def utcOffset_def
        msPerWeek_def wall_clock_exists_def)
  have fm: "format_YYYY_MM_DD ny_clock (moment_of ny_clock (lmp_date lmp_record))
      = ''2020-01-01''"
    by code_simp
  have i: "instant (date (getEDD ny_clock lmp_record)) = 1603278000000"
    by code_simp
  show ?thesis
    using getEDD_lmp [OF f l dn ex] f fm i by simp
qed

text \<open>The date 2020-10-28 of the claim is 43 weeks after 2020-01-01: the record with
  LMP date 2020-01-01 does not get it.\<close>

theorem getEDD_lmp_counterexample:
  "form lmp_record \<noteq> ''R''
   \<and> format_YYYY_MM_DD ny_clock (moment_of ny_clock (lmp_date lmp_record)) = ''2020-01-01''
   \<and> format_YYYY_MM_DD ny_clock (date (getEDD ny_clock lmp_record)) \<noteq> ''2020-10-28''"
  by code_simp

lemma diff_weeks_wall:
  assumes "fixed_offset a = None" and "fixed_offset b = None"
  shows "diff_weeks clk a b =
     (if local_ms clk a - local_ms clk b < 0
      then - ((- (local_ms clk a - local_ms clk b)) div msPerWeek)
      else (local_ms clk a - local_ms clk b) div msPerWeek)"
proof -
  have e: "instant a - instant b - (offset_at clk (instant b) - utcOffset clk a) * 60000
      = local_ms clk a - local_ms clk b"
    using assms by (simp add: local_ms_def utcOffset_def algebra_simps)
  show ?thesis
    by (simp only: diff_weeks_def Let_def assms(1) option.case e)
qed

text \<open>
  C3, as the code has it. The weeks are counted between the wall-clock times, as
  moment's \<open>diff\<close> does. For a record whose form is not \<open>'R'\<close> and whose LMP date
  lies 10 whole weeks before now, \<open>getWeeksPregnant\<close> returns the number 8 and sets
  no \<open>approximate\<close> attribute; for a record of form \<open>'R'\<close> reported 6 whole weeks
  before now it returns the number 6 with \<open>approximate\<close> true.
\<close>

theorem getWeeksPregnant_weeks:
  "(form d \<noteq> ''R'' \<longrightarrow> lmp_date d = Some t \<longrightarrow>
      10 * msPerWeek \<le> local_ms clk (moment_now clk) - local_ms clk (moment_of clk (Some t)) \<longrightarrow>
      local_ms clk (moment_now clk) - local_ms clk (moment_of clk (Some t)) < 11 * msPerWeek \<longrightarrow>
      getWeeksPregnant clk d = \<lparr>approximate = None, number = 8\<rparr>)
   \<and> (form d = ''R'' \<longrightarrow> reported_date d = Some t \<longrightarrow>
      6 * msPerWeek \<le> local_ms clk (moment_now clk) - local_ms clk (moment_of clk (Some t)) \<longrightarrow>
      local_ms clk (moment_now clk) - local_ms clk (moment_of clk (Some t)) < 7 * msPerWeek \<longrightarrow>
      getWeeksPregnant clk d = \<lparr>approximate = Some True, number = 6\<rparr>)"
proof -
  have diff: "diff_weeks clk (moment_now clk) (moment_of clk (Some t)) = k"
    if "k * msPerWeek \<le> local_ms clk (moment_now clk) - local_ms clk (moment_of clk (Some t))"
      and "local_ms clk (moment_now clk) - local_ms clk (moment_of clk (Some t))
             < (k + 1) * msPerWeek"
      and "0 \<le> k" for k
  proof -
    let ?x = "local_ms clk (moment_now clk) - local_ms clk (moment_of clk (Some t))"
    have "0 \<le> ?x"
      using that(1,3) by (simp add: msPerWeek_def)
    moreover have "?x div msPerWeek = k"
    proof (rule int_div_pos_eq)
      show "?x = msPerWeek * k + (?x - k * msPerWeek)"
        by simp
      show "0 \<le> ?x - k * msPerWeek"
        using that(1) by simp
      show "?x - k * msPerWeek < msPerWeek"
        using that(2) by (simp add: algebra_simps)
    qed
    moreover have "diff_weeks clk (moment_now clk) (moment_of clk (Some t)) =
        (if ?x < 0 then - ((- ?x) div msPerWeek) else ?x div msPerWeek)"
      by (rule diff_weeks_wall) (simp_all add: moment_now_def moment_of_def)
    ultimately show ?thesis
      by simp
  qed
  show ?thesis
    using diff [of 10] diff [of 6] by (simp add: getWeeksPregnant_def)
qed

theorem getWeeksPregnant_weeks_witness:
  "local_ms ny_clock (moment_now ny_clock) - local_ms ny_clock (moment_of ny_clock (Some 1577880000000))
     = 10 * msPerWeek
   \<and> getWeeksPregnant ny_clock lmp_record = \<lparr>approximate = None, number = 8\<rparr>
   \<and> local_ms ny_clock (moment_now ny_clock) - local_ms ny_clock (moment_of ny_clock (Some 1580299200000))
     = 6 * msPerWeek
   \<and> getWeeksPregnant ny_clock reported_record = \<lparr>approximate = Some True, number = 6\<rparr>"
proof -
  have a: "local_ms ny_clock (moment_now ny_clock)
      - local_ms ny_clock (moment_of ny_clock (Some 1577880000000)) = 10 * msPerWeek"
    by (simp add: ny_clock_def local_ms_def utcOffset_def moment_now_def moment_of_def
        msPerWeek_def)
  have b: "local_ms ny_clock (moment_now ny_clock)
      - local_ms ny_clock (moment_of ny_clock (Some 1580299200000)) = 6 * msPerWeek"
    by (simp add: ny_clock_def local_ms_def utcOffset_def moment_now_def moment_of_def
        msPerWeek_def)
  have f: "form lmp_record \<noteq> ''R''" "lmp_date lmp_record = Some 1577880000000"
    "form reported_record = ''R''" "reported_date reported_record = Some 1580299200000"
    by (simp_all add: lmp_record_def reported_record_def)
  have "getWeeksPregnant ny_clock lmp_record = \<lparr>approximate = None, number = 8\<rparr>"
    using getWeeksPregnant_weeks [of lmp_record 1577880000000 ny_clock] f a
    by (simp add: msPerWeek_def)
  moreover have "getWeeksPregnant ny_clock reported_record = \<lparr>approximate = Some True, number = 6\<rparr>"
    using getWeeksPregnant_weeks [of reported_record 1580299200000 ny_clock] f b
    by (simp add: msPerWeek_def)
  ultimately show ?thesis
    using a b by simp
qed

text \<open>The object returned for the LMP-based record has no \<open>approximate\<close> attribute:
  the attribute is absent, not false.\<close>

theorem getWeeksPregnant_weeks_counterexample:
  "form lmp_record \<noteq> ''R''
   \<and> local_ms ny_clock (moment_now ny_clock) - local_ms ny_clock (moment_of ny_clock (lmp_date lmp_record))
       = 10 * msPerWeek
   \<and> getWeeksPregnant ny_clock lmp_record \<noteq> \<lparr>approximate = Some False, number = 8\<rparr>"
  by (simp add: lmp_record_def ny_clock_def msPerWeek_def getWeeksPregnant_def local_ms_def
      utcOffset_def moment_now_def moment_of_def)

text \<open>An LMP date 6 days and 23.5 hours more than 10 weeks before now in elapsed time,
  on the other side of the change of offset, is 11 weeks before now on the wall clock.\<close>

lemma getWeeksPregnant_across_offset_change:
  "getWeeksPregnant (ny_clock\<lparr>now_ms := 1583928000000\<rparr>)
     (lmp_record\<lparr>lmp_date := Some 1577277000000\<rparr>) = \<lparr>approximate = None, number = 9\<rparr>"
  by code_simp

section \<open>Properties of the chunked query executor\<close>

lemma fti_eq:
  "fti eng opts w =
     (case eng ''data_records'' (sent opts) (engine_state w) of
        (r, s') \<Rightarrow>
          ((case r of Failure err \<Rightarrow> Inl err | Success a \<Rightarrow> Inr (passed_on a)),
           w\<lparr>calls := calls w @ [(''data_records'', sent opts, r)], engine_state := s'\<rparr>))"
  by (simp add: fti_def db_fti_def sent_def passed_on_def Let_def
      split: prod.splits response.splits option.splits)

text \<open>
  C9, as the code has it. When the engine answers without error, \<open>fti\<close> makes the one
  call and passes a result object on: for a null answer the object
  \<open>{total_rows: 0, rows: []}\<close>; for a non-null answer its rows, or the empty sequence
  when it has none, and its \<open>total_rows\<close> as the engine gave it. The row sequence is
  never absent; \<open>total_rows\<close> is absent exactly when the non-null answer had none.
\<close>

theorem fti_substitutes:
  assumes "eng ''data_records'' (sent opts) (engine_state w) = (Success a, s')"
  shows "\<exists>res w'. fti eng opts w = (Inr res, w')
     \<and> calls w' = calls w @ [(''data_records'', sent opts, Success a)]
     \<and> (a = None \<longrightarrow> res = \<lparr>total_rows = Num 0, rows = []\<rparr>)
     \<and> (\<forall>r. a = Some r \<longrightarrow>
           rows res = (case raw_rows r of None \<Rightarrow> [] | Some rs \<Rightarrow> rs)
         \<and> (total_rows res = Undefined \<longleftrightarrow> raw_total_rows r = None)
         \<and> (\<forall>n. raw_total_rows r = Some n \<longrightarrow> total_rows res = Num n))"
  using assms by (auto simp add: fti_eq passed_on_def split: option.splits)

theorem fti_substitutes_witness:
  "\<exists>res w'. fti scripted no_options (world0 1000 [Success (Some \<lparr>raw_total_rows = Some 7, raw_rows = None\<rparr>)]) = (Inr res, w')
     \<and> rows res = [] \<and> total_rows res = Num 7"
proof -
  have "scripted ''data_records'' (sent no_options)
          (engine_state (world0 1000 [Success (Some \<lparr>raw_total_rows = Some 7, raw_rows = None\<rparr>)]))
        = (Success (Some \<lparr>raw_total_rows = Some 7, raw_rows = None\<rparr>), ([] :: string response list))"
    by (simp add: scripted_def world0_def)
  then show ?thesis
    using fti_substitutes [of scripted no_options
        "world0 1000 [Success (Some \<lparr>raw_total_rows = Some 7, raw_rows = None\<rparr>)]"
        "Some \<lparr>raw_total_rows = Some 7, raw_rows = None\<rparr>" "[]"]
    by auto
qed

text \<open>An answer that is an object with neither attribute comes back with an empty row
  sequence and still without \<open>total_rows\<close>.\<close>

theorem fti_substitutes_counterexample:
  "fst (fti scripted no_options
          (world0 1000 [Success (Some \<lparr>raw_total_rows = None, raw_rows = None\<rparr>)]))
     = Inr \<lparr>total_rows = Undefined, rows = []\<rparr>"
  by (simp add: fti_eq scripted_def world0_def passed_on_def)

text \<open>
  C4. For options whose patient-identifier sequence is present and empty,
  \<open>ftiWithPatientIds\<close> returns \<open>{total_rows: 0, rows: []}\<close> and leaves the world as it
  was, whatever the engine is: no call is made.
\<close>

theorem ftiWithPatientIds_empty:
  "patientIds opts = Some [] \<Longrightarrow>
     ftiWithPatientIds eng opts w = Some (Inr \<lparr>total_rows = Num 0, rows = []\<rparr>, w)"
  by (simp add: ftiWithPatientIds_def)

theorem ftiWithPatientIds_empty_witness:
  "ftiWithPatientIds scripted (no_options\<lparr>patientIds := Some []\<rparr>) (world0 1000 [Failure ''down''])
     = Some (Inr \<lparr>total_rows = Num 0, rows = []\<rparr>, world0 1000 [Failure ''down''])"
  using ftiWithPatientIds_empty [of "no_options\<lparr>patientIds := Some []\<rparr>" scripted "world0 1000 [Failure ''down'']"]
  by simp

text \<open>
  C10. When the options are absent, or their patient identifiers are absent or empty,
  \<open>getVisits\<close> and \<open>getHighRisk\<close> pass the empty array to the callback, without a call
  to the engine. The array has no \<open>rows\<close> attribute and is not the result object
  \<open>{total_rows: 0, rows: []}\<close> that the executor returns for an empty filter.
\<close>

theorem empty_filter_plain_array:
  assumes "options = None
     \<or> (\<exists>opts. options = Some opts \<and> (patientIds opts = None \<or> patientIds opts = Some []))"
  shows "getVisits anc_forms eng clk options w = Some (Inr (PlainArray []), w)
     \<and> getHighRisk anc_forms eng options w = Some (Inr (PlainArray []), w)
     \<and> rows_of (PlainArray []) = None
     \<and> as_fetched (ftiWithPatientIds eng (no_options\<lparr>patientIds := Some []\<rparr>) w)
         = Some (Inr (ResultObject \<lparr>total_rows = Num 0, rows = []\<rparr>), w)
     \<and> PlainArray [] \<noteq> ResultObject \<lparr>total_rows = Num 0, rows = []\<rparr>"
  using assms
  by (auto simp add: getVisits_def getHighRisk_def rows_of_def as_fetched_def
      ftiWithPatientIds_def)

theorem empty_filter_plain_array_witness:
  "getVisits Map.empty scripted ny_clock (Some (no_options\<lparr>patientIds := Some []\<rparr>))
       (world0 1000 [Failure ''down''])
     = Some (Inr (PlainArray []), world0 1000 [Failure ''down''])
   \<and> getHighRisk Map.empty scripted None (world0 1000 [Failure ''down''])
     = Some (Inr (PlainArray []), world0 1000 [Failure ''down''])"
  using empty_filter_plain_array [of "Some (no_options\<lparr>patientIds := Some []\<rparr>)" Map.empty scripted ny_clock "world0 1000 [Failure ''down'']"]
    empty_filter_plain_array [of None Map.empty scripted ny_clock "world0 1000 [Failure ''down'']"]
  by simp

text \<open>The loop of \<open>chunk\<close> ends for every positive size, with the chunks that cover
  the rest of the sequence; with size 0 it does not end on a non-empty sequence.\<close>

lemma ceil_step:
  fixes sz m :: nat
  assumes "0 < sz" and "0 < m"
  shows "Suc ((m - sz + sz - 1) div sz) = (m + sz - 1) div sz"
proof (cases "sz \<le> m")
  case True
  then have e1: "m - sz + sz - 1 = m - 1" and e2: "m + sz - 1 = (m - 1) + sz"
    using assms by arith+
  have "((m - 1) + sz) div sz = Suc ((m - 1) div sz)"
    using div_add_self2 [of sz "m - 1"] assms(1) by simp
  then show ?thesis
    by (simp only: e1 e2)
next
  case False
  then have "(m - sz + sz - 1) div sz = 0"
    using assms by simp
  moreover have "(m + sz - 1) div sz = 1"
    using False assms by (intro div_nat_eqI) simp_all
  ultimately show ?thesis
    by simp
qed

lemma chunk_loop_Some:
  assumes "0 < sz"
  shows "\<exists>cs. chunk_loop items sz i acc = Some (acc @ cs)
     \<and> concat cs = drop i items
     \<and> length cs = (length items - i + sz - 1) div sz
     \<and> (\<forall>c\<in>set cs. c \<noteq> [] \<and> length c \<le> sz)"
proof (induction "length items - i" arbitrary: i acc rule: less_induct)
  case less
  show ?case
  proof (cases "i < length items")
    case False
    have "chunk_loop items sz i acc = Some (acc @ [])"
      using False by (subst chunk_loop.simps) simp
    moreover have "(length items - i + sz - 1) div sz = 0"
      using False assms by simp
    ultimately show ?thesis
      using False by (intro exI [of _ "[]"]) simp
  next
    case True
    let ?c = "slice items i (i + sz)"
    have dec: "length items - (i + sz) < length items - i"
      using True assms by arith
    obtain cs where cs: "chunk_loop items sz (i + sz) (acc @ [?c]) = Some ((acc @ [?c]) @ cs)"
      "concat cs = drop (i + sz) items"
      "length cs = (length items - (i + sz) + sz - 1) div sz"
      "\<forall>c\<in>set cs. c \<noteq> [] \<and> length c \<le> sz"
      using less [OF dec, of "acc @ [?c]"] by blast
    have step: "chunk_loop items sz i acc = Some (acc @ (?c # cs))"
      using True cs(1) by (subst chunk_loop.simps) simp
    have c_def: "?c = take sz (drop i items)"
      by (simp add: slice_def)
    have cat: "concat (?c # cs) = drop i items"
    proof -
      have "take sz (drop i items) @ drop sz (drop i items) = drop i items"
        by (rule append_take_drop_id)
      then show ?thesis
        by (simp add: c_def cs(2) add.commute)
    qed
    have c_ok: "?c \<noteq> [] \<and> length ?c \<le> sz"
      using True assms by (simp add: c_def)
    have len: "length (?c # cs) = (length items - i + sz - 1) div sz"
      using ceil_step [of sz "length items - i"] True assms
      by (simp add: cs(3))
    show ?thesis
      using step cat c_ok len cs(4) by (intro exI [of _ "?c # cs"]) simp
  qed
qed

lemma chunk_Some:
  assumes "0 < sz"
  shows "\<exists>cs. chunk items sz = Some cs \<and> concat cs = items
     \<and> length cs = (length items + sz - 1) div sz
     \<and> (\<forall>c\<in>set cs. c \<noteq> [] \<and> length c \<le> sz)"
  using chunk_loop_Some [OF assms, of items 0 "[]"] by (simp add: chunk_def)

lemma chunk_loop_zero:
  assumes "chunk_loop items sz i chunks = Some cs"
  shows "sz = 0 \<longrightarrow> \<not> i < length items"
  by (rule chunk_loop.raw_induct
      [where P = "\<lambda>items sz i chunks cs. sz = 0 \<longrightarrow> \<not> i < length items", OF _ assms])
    (fastforce split: if_splits)

lemma chunk_zero_diverges: "items \<noteq> [] \<Longrightarrow> chunk items 0 = None"
  using chunk_loop_zero [of items 0 0 "[]"] by (cases "chunk items 0") (auto simp add: chunk_def)

text \<open>The number of chunks as a ceiling.\<close>

lemma ceil_int:
  fixes a b :: int
  assumes "0 < b"
  shows "- (- a div b) = (a + b - 1) div b"
proof -
  define q where "q = (a + b - 1) div b"
  define r where "r = (a + b - 1) mod b"
  have ab: "a + b - 1 = b * q + r"
    by (simp add: q_def r_def)
  have r: "0 \<le> r" "r < b"
    using assms by (simp_all add: r_def)
  have "- a = b * (- q) + (b - 1 - r)"
    using ab by (simp add: algebra_simps)
  moreover have "0 \<le> b - 1 - r" "b - 1 - r < b"
    using r by simp_all
  ultimately have "- a div b = - q"
    by (rule int_div_pos_eq)
  then show ?thesis
    by (simp add: q_def)
qed

lemma ceiling_nat_div:
  fixes n l :: nat
  assumes "0 < l"
  shows "\<lceil>real n / real l\<rceil> = int ((n + l - 1) div l)"
proof -
  have "\<lceil>real n / real l\<rceil> = \<lceil>of_int (int n) / (of_int (int l) :: real)\<rceil>" by simp
  also have "\<dots> = - (- int n div int l)" by (rule ceiling_divide_eq_div)
  also have "\<dots> = (int n + int l - 1) div int l" using assms by (simp add: ceil_int)
  also have "\<dots> = int ((n + l - 1) div l)" using assms
    by (simp add: zdiv_int of_nat_diff)
  finally show ?thesis .
qed

text \<open>One step of the reduction is one call; the reduction logs the calls of the chunks
  it reached and stops at the first failure.\<close>

lemma sent_chunk_query: "sent (chunk_query opts ids) = chunk_query opts ids"
  by (simp add: sent_def chunk_query_def)

lemma chunk_step_eq:
  "chunk_step eng opts memo ids w =
     (case eng ''data_records'' (chunk_query opts ids) (engine_state w) of
        (r, s') \<Rightarrow>
          ((case r of
              Failure err \<Rightarrow> Inl err
            | Success a \<Rightarrow>
                Inr \<lparr>total_rows = js_add (total_rows memo) (total_rows (passed_on a)),
                     rows = rows memo @ rows (passed_on a)\<rparr>),
           w\<lparr>calls := calls w @ [(''data_records'', chunk_query opts ids, r)],
             engine_state := s'\<rparr>))"
  by (simp add: chunk_step_def fti_eq sent_chunk_query split: prod.splits response.splits)

lemma async_reduce_chunks:
  "async_reduce (chunk_step eng opts) cs memo w = (out, w') \<Longrightarrow>
   \<exists>resps. length resps \<le> length cs
     \<and> calls w' = calls w @ logged opts cs resps
     \<and> (case out of
          Inr res \<Rightarrow>
            \<exists>answers. resps = map Success answers \<and> length answers = length cs
              \<and> rows res = rows memo @ concat (map (rows \<circ> passed_on) answers)
              \<and> total_rows res =
                  foldl js_add (total_rows memo) (map (total_rows \<circ> passed_on) answers)
        | Inl err \<Rightarrow> \<exists>answers. resps = map Success answers @ [Failure err])"
proof (induction cs arbitrary: memo w)
  case Nil
  then show ?case
    by (intro exI [of _ "[]"]) (auto simp add: logged_def)
next
  case (Cons c cs)
  obtain r s' where eng: "eng ''data_records'' (chunk_query opts c) (engine_state w) = (r, s')"
    by (cases "eng ''data_records'' (chunk_query opts c) (engine_state w)")
  let ?w1 = "w\<lparr>calls := calls w @ [(''data_records'', chunk_query opts c, r)],
               engine_state := s'\<rparr>"
  show ?case
  proof (cases r)
    case (Failure err)
    then have "out = Inl err" and "w' = ?w1"
      using Cons.prems eng chunk_step_eq [of eng opts memo c w] by simp_all
    then show ?thesis
      using Failure
      by (intro exI [of _ "[Failure err]"]) (simp add: logged_def)
  next
    case (Success a)
    let ?memo1 = "\<lparr>total_rows = js_add (total_rows memo) (total_rows (passed_on a)),
                   rows = rows memo @ rows (passed_on a)\<rparr>"
    have "async_reduce (chunk_step eng opts) cs ?memo1 ?w1 = (out, w')"
      using Cons.prems eng Success chunk_step_eq [of eng opts memo c w] by simp
    from Cons.IH [OF this] obtain resps where resps:
      "length resps \<le> length cs"
      "calls w' = calls ?w1 @ logged opts cs resps"
      "case out of
          Inr res \<Rightarrow>
            \<exists>answers. resps = map Success answers \<and> length answers = length cs
              \<and> rows res = rows ?memo1 @ concat (map (rows \<circ> passed_on) answers)
              \<and> total_rows res =
                  foldl js_add (total_rows ?memo1) (map (total_rows \<circ> passed_on) answers)
        | Inl err \<Rightarrow> \<exists>answers. resps = map Success answers @ [Failure err]"
      by blast
    have log: "calls w' = calls w @ logged opts (c # cs) (Success a # resps)"
      using resps(2) Success by (simp add: logged_def)
    have fin: "case out of
          Inr res \<Rightarrow>
            \<exists>answers. Success a # resps = map Success answers
              \<and> length answers = length (c # cs)
              \<and> rows res = rows memo @ concat (map (rows \<circ> passed_on) answers)
              \<and> total_rows res =
                  foldl js_add (total_rows memo) (map (total_rows \<circ> passed_on) answers)
        | Inl err \<Rightarrow> \<exists>answers. Success a # resps = map Success answers @ [Failure err]"
    proof (cases out)
      case (Inl err)
      then obtain answers where r: "resps = map Success answers @ [Failure err]"
        using resps(3) by auto
      have "\<exists>answers. Success a # resps = map Success answers @ [Failure err]"
        by (rule exI [of _ "a # answers"]) (simp add: r)
      then show ?thesis
        using Inl by simp
    next
      case (Inr res)
      then obtain answers where a: "resps = map Success answers" "length answers = length cs"
        "rows res = rows ?memo1 @ concat (map (rows \<circ> passed_on) answers)"
        "total_rows res =
           foldl js_add (total_rows ?memo1) (map (total_rows \<circ> passed_on) answers)"
        using resps(3) by auto
      have "\<exists>answers. Success a # resps = map Success answers
          \<and> length answers = length (c # cs)
          \<and> rows res = rows memo @ concat (map (rows \<circ> passed_on) answers)
          \<and> total_rows res =
              foldl js_add (total_rows memo) (map (total_rows \<circ> passed_on) answers)"
        by (rule exI [of _ "a # answers"]) (simp add: a)
      then show ?thesis
        using Inr by simp
    qed
    show ?thesis
      using resps(1) log fin by (intro exI [of _ "Success a # resps"]) simp
  qed
qed

lemma foldl_js_add_Num: "foldl js_add (Num k) (map Num ns) = Num (k + sum_list ns)"
  by (induction ns arbitrary: k) simp_all

lemma ftiWithPatientIds_returns:
  assumes "0 < luceneConditionalLimit w"
  shows "\<exists>out w'. ftiWithPatientIds eng opts w = Some (out, w')"
proof (cases "patientIds opts")
  case None
  then show ?thesis
    by (simp add: ftiWithPatientIds_def)
next
  case (Some ids)
  obtain cs where "chunk ids (luceneConditionalLimit w) = Some cs"
    using chunk_Some [OF assms, of ids] by blast
  then show ?thesis
    using Some by (simp add: ftiWithPatientIds_def)
qed

text \<open>
  C1. For a non-empty sequence of N patient identifiers and a limit L > 0, \<open>chunk\<close>
  returns ceil(N / L) chunks whose concatenation is the sequence, each with at least
  one and at most L identifiers, and the executor returns. When it returns a result,
  it has made exactly one call per chunk, in chunk order; the rows of the result are
  the rows of the answers concatenated in that order, and its \<open>total_rows\<close> is the
  sum of theirs (the integer sum when every answer carries a number).
\<close>

theorem ftiWithPatientIds_chunks:
  assumes "patientIds opts = Some ids" and "ids \<noteq> []" and "0 < luceneConditionalLimit w"
  shows "\<exists>cs out w'.
      chunk ids (luceneConditionalLimit w) = Some cs
    \<and> concat cs = ids
    \<and> int (length cs) = \<lceil>real (length ids) / real (luceneConditionalLimit w)\<rceil>
    \<and> (\<forall>c\<in>set cs. c \<noteq> [] \<and> length c \<le> luceneConditionalLimit w)
    \<and> ftiWithPatientIds eng opts w = Some (out, w')
    \<and> (\<forall>res. out = Inr res \<longrightarrow>
          (\<exists>answers. length answers = length cs
             \<and> calls w' = calls w @ logged opts cs (map Success answers)
             \<and> rows res = concat (map (rows \<circ> passed_on) answers)
             \<and> total_rows res = foldl js_add (Num 0) (map (total_rows \<circ> passed_on) answers)
             \<and> (\<forall>ns. map (total_rows \<circ> passed_on) answers = map Num ns \<longrightarrow>
                   total_rows res = Num (sum_list ns))))"
proof -
  obtain cs where cs: "chunk ids (luceneConditionalLimit w) = Some cs" "concat cs = ids"
    "length cs = (length ids + luceneConditionalLimit w - 1) div luceneConditionalLimit w"
    "\<forall>c\<in>set cs. c \<noteq> [] \<and> length c \<le> luceneConditionalLimit w"
    using chunk_Some [OF assms(3), of ids] by blast
  obtain out w' where run:
    "async_reduce (chunk_step eng opts) cs \<lparr>total_rows = Num 0, rows = []\<rparr> w = (out, w')"
    by (cases "async_reduce (chunk_step eng opts) cs \<lparr>total_rows = Num 0, rows = []\<rparr> w")
  have fti: "ftiWithPatientIds eng opts w = Some (out, w')"
    using assms(1,2) cs(1) run by (simp add: ftiWithPatientIds_def)
  have merged: "\<exists>answers. length answers = length cs
       \<and> calls w' = calls w @ logged opts cs (map Success answers)
       \<and> rows res = concat (map (rows \<circ> passed_on) answers)
       \<and> total_rows res = foldl js_add (Num 0) (map (total_rows \<circ> passed_on) answers)
       \<and> (\<forall>ns. map (total_rows \<circ> passed_on) answers = map Num ns \<longrightarrow>
             total_rows res = Num (sum_list ns))" if out: "out = Inr res" for res
  proof -
    obtain resps where resps: "calls w' = calls w @ logged opts cs resps"
      "\<exists>answers. resps = map Success answers \<and> length answers = length cs
          \<and> rows res = concat (map (rows \<circ> passed_on) answers)
          \<and> total_rows res = foldl js_add (Num 0) (map (total_rows \<circ> passed_on) answers)"
      using async_reduce_chunks [OF run] out by auto
    then obtain answers where a: "length answers = length cs"
      "calls w' = calls w @ logged opts cs (map Success answers)"
      "rows res = concat (map (rows \<circ> passed_on) answers)"
      "total_rows res = foldl js_add (Num 0) (map (total_rows \<circ> passed_on) answers)"
      by auto
    have "total_rows res = Num (sum_list ns)"
      if "map (total_rows \<circ> passed_on) answers = map Num ns" for ns
      using a(4) that foldl_js_add_Num [of 0 ns] by simp
    then show ?thesis
      using a by blast
  qed
  have ceil: "int (length cs) = \<lceil>real (length ids) / real (luceneConditionalLimit w)\<rceil>"
    using cs(3) ceiling_nat_div [OF assms(3), of "length ids"] by simp
  show ?thesis
    using cs(1,2,4) ceil fti merged by blast
qed

theorem ftiWithPatientIds_chunks_witness:
  "chunk [''a'', ''b'', ''c''] (luceneConditionalLimit abc_world) = Some [[''a'', ''b''], [''c'']]
   \<and> (\<exists>w'. ftiWithPatientIds scripted abc_options abc_world
          = Some (Inr \<lparr>total_rows = Num 7, rows = [row_for ''a'', row_for ''c'']\<rparr>, w')
        \<and> length (calls w') = 2)"
proof -
  have h: "patientIds abc_options = Some [''a'', ''b'', ''c'']" "[''a'', ''b'', ''c''] \<noteq> []"
    "0 < luceneConditionalLimit abc_world"
    by (simp_all add: abc_options_def abc_world_def world0_def)
  have c: "chunk [''a'', ''b'', ''c''] (luceneConditionalLimit abc_world) = Some [[''a'', ''b''], [''c'']]"
    by code_simp
  have r: "fst (the (ftiWithPatientIds scripted abc_options abc_world))
      = Inr \<lparr>total_rows = Num 7, rows = [row_for ''a'', row_for ''c'']\<rparr>"
    by code_simp
  from ftiWithPatientIds_chunks [OF h, of scripted] obtain cs out w' where
    "chunk [''a'', ''b'', ''c''] (luceneConditionalLimit abc_world) = Some cs"
    "ftiWithPatientIds scripted abc_options abc_world = Some (out, w')"
    "\<forall>res. out = Inr res \<longrightarrow>
          (\<exists>answers. length answers = length cs
             \<and> calls w' = calls abc_world @ logged abc_options cs (map Success answers)
             \<and> rows res = concat (map (rows \<circ> passed_on) answers)
             \<and> total_rows res = foldl js_add (Num 0) (map (total_rows \<circ> passed_on) answers)
             \<and> (\<forall>ns. map (total_rows \<circ> passed_on) answers = map Num ns \<longrightarrow>
                   total_rows res = Num (sum_list ns)))"
    by blast
  then have "ftiWithPatientIds scripted abc_options abc_world
          = Some (Inr \<lparr>total_rows = Num 7, rows = [row_for ''a'', row_for ''c'']\<rparr>, w')
        \<and> length (calls w') = 2"
    using c r by (auto simp add: logged_def abc_world_def world0_def)
  then show ?thesis
    using c by blast
qed

text \<open>
  C6. In a chunked execution the calls made are those of an initial segment of the
  chunks, one call per chunk and in order. A call that fails is the last call made,
  and its error is what the caller gets, in place of any result; conversely an error
  outcome is the error of the last call.
\<close>

theorem ftiWithPatientIds_failure:
  assumes "patientIds opts = Some ids" and "ids \<noteq> []" and "0 < luceneConditionalLimit w"
  shows "\<exists>cs out w' resps.
      chunk ids (luceneConditionalLimit w) = Some cs
    \<and> ftiWithPatientIds eng opts w = Some (out, w')
    \<and> length resps \<le> length cs
    \<and> calls w' = calls w @ logged opts cs resps
    \<and> (\<forall>j err. j < length resps \<longrightarrow> resps ! j = Failure err \<longrightarrow>
          Suc j = length resps \<and> out = Inl err)
    \<and> (\<forall>err. out = Inl err \<longrightarrow> resps \<noteq> [] \<and> last resps = Failure err)"
proof -
  obtain cs where cs: "chunk ids (luceneConditionalLimit w) = Some cs"
    using chunk_Some [OF assms(3), of ids] by blast
  obtain out w' where run:
    "async_reduce (chunk_step eng opts) cs \<lparr>total_rows = Num 0, rows = []\<rparr> w = (out, w')"
    by (cases "async_reduce (chunk_step eng opts) cs \<lparr>total_rows = Num 0, rows = []\<rparr> w")
  have fti: "ftiWithPatientIds eng opts w = Some (out, w')"
    using assms(1,2) cs(1) run by (simp add: ftiWithPatientIds_def)
  obtain resps where resps: "length resps \<le> length cs"
    "calls w' = calls w @ logged opts cs resps"
    "case out of
       Inr res \<Rightarrow> \<exists>answers. resps = map Success answers \<and> length answers = length cs
          \<and> rows res = rows \<lparr>total_rows = Num 0, rows = []\<rparr> @ concat (map (rows \<circ> passed_on) answers)
          \<and> total_rows res =
              foldl js_add (total_rows \<lparr>total_rows = Num 0, rows = []\<rparr>) (map (total_rows \<circ> passed_on) answers)
     | Inl err \<Rightarrow> \<exists>answers. resps = map Success answers @ [Failure err]"
    using async_reduce_chunks [OF run] by blast
  have last_fails: "Suc j = length resps \<and> out = Inl err"
    if "j < length resps" and "resps ! j = Failure err" for j err
  proof (cases out)
    case (Inr res)
    then obtain answers where "resps = map Success answers"
      using resps(3) by auto
    then show ?thesis
      using that by simp
  next
    case (Inl e)
    then obtain answers where a: "resps = map Success answers @ [Failure e]"
      using resps(3) by auto
    have "\<not> j < length answers"
      using that(2) a by (auto simp add: nth_append)
    then have "j = length answers"
      using that(1) a by simp
    then show ?thesis
      using that(2) a Inl by (simp add: nth_append)
  qed
  have err_last: "resps \<noteq> [] \<and> last resps = Failure err" if "out = Inl err" for err
    using resps(3) that by auto
  show ?thesis
    using cs fti resps(1,2) last_fails err_last by blast
qed

theorem ftiWithPatientIds_failure_witness:
  "(\<exists>cs out w' resps.
      chunk [''a'', ''b'', ''c''] (luceneConditionalLimit failing_world) = Some cs
    \<and> ftiWithPatientIds scripted abc_options failing_world = Some (out, w')
    \<and> length resps \<le> length cs
    \<and> calls w' = calls failing_world @ logged abc_options cs resps
    \<and> (\<forall>j err. j < length resps \<longrightarrow> resps ! j = Failure err \<longrightarrow>
          Suc j = length resps \<and> out = Inl err)
    \<and> (\<forall>err. out = Inl err \<longrightarrow> resps \<noteq> [] \<and> last resps = Failure err))
   \<and> fst (the (ftiWithPatientIds scripted abc_options failing_world)) = Inl ''down''
   \<and> map (snd \<circ> snd) (calls (snd (the (ftiWithPatientIds scripted abc_options failing_world))))
       = [answer 3 [row_for ''a''], Failure ''down'']"
proof (intro conjI)
  show "\<exists>cs out w' resps.
      chunk [''a'', ''b'', ''c''] (luceneConditionalLimit failing_world) = Some cs
    \<and> ftiWithPatientIds scripted abc_options failing_world = Some (out, w')
    \<and> length resps \<le> length cs
    \<and> calls w' = calls failing_world @ logged abc_options cs resps
    \<and> (\<forall>j err. j < length resps \<longrightarrow> resps ! j = Failure err \<longrightarrow>
          Suc j = length resps \<and> out = Inl err)
    \<and> (\<forall>err. out = Inl err \<longrightarrow> resps \<noteq> [] \<and> last resps = Failure err)"
    by (rule ftiWithPatientIds_failure)
      (simp_all add: abc_options_def failing_world_def world0_def)
  show "fst (the (ftiWithPatientIds scripted abc_options failing_world)) = Inl ''down''"
    by code_simp
  show "map (snd \<circ> snd) (calls (snd (the (ftiWithPatientIds scripted abc_options failing_world))))
       = [answer 3 [row_for ''a''], Failure ''down'']"
    by code_simp
qed

section \<open>Properties of the join operations\<close>

lemma some_delivery_Inr:
  "some_delivery deliveries object = Inr b \<Longrightarrow>
     b = (patient_id object \<in> set (row_ids deliveries))"
  by (induction deliveries) (auto split: option.splits if_splits)

lemma some_delivery_docs:
  "list_all has_doc deliveries \<Longrightarrow>
     \<exists>b. some_delivery deliveries object = (Inr b :: 'e failure + bool)"
  by (induction deliveries) (auto simp add: has_doc_def)

lemma reject_delivered_Inr:
  "reject_delivered objects deliveries = Inr undelivered \<Longrightarrow>
     undelivered = filter (\<lambda>object. patient_id object \<notin> set (row_ids deliveries)) objects"
proof (induction objects arbitrary: undelivered)
  case Nil
  then show ?case by simp
next
  case (Cons object objects)
  from Cons.prems obtain b rest where
    b: "some_delivery deliveries object = (Inr b :: 'a failure + bool)"
    and rest: "reject_delivered objects deliveries = (Inr rest :: 'a failure + document list)"
    and und: "undelivered = (if b then rest else object # rest)"
    by (auto split: sum.splits)
  show ?case
    using some_delivery_Inr [OF b] Cons.IH [OF rest] und by simp
qed

lemma reject_delivered_docs:
  assumes "list_all has_doc deliveries"
  shows "\<exists>undelivered.
     reject_delivered objects deliveries = (Inr undelivered :: 'e failure + document list)"
proof (induction objects)
  case Nil
  then show ?case by simp
next
  case (Cons object objects)
  then show ?case
    using some_delivery_docs [where ?'e = 'e, OF assms, of object] by (auto split: sum.splits)
qed

lemma getDeliveries_returns:
  assumes "0 < luceneConditionalLimit w"
  shows "\<exists>out w'. getDeliveries anc_forms eng clk options w = Some (out, w')"
  by (simp only: getDeliveries_def Let_def) (rule ftiWithPatientIds_returns [OF assms])

text \<open>
  C7. \<open>rejectDeliveries\<close> on no entities returns the empty sequence without a call.
  On entities, with a positive limit, it returns; when the deliveries fetched for the
  entities' identifiers carry their documents, it returns the entities whose
  identifier is not among the delivered ones, in their original order; and whenever
  it passes a sequence to the callback, it is that one.
\<close>

theorem rejectDeliveries_antijoin:
  "rejectDeliveries anc_forms eng clk [] w = Some (Inr [], w)
   \<and> (0 < luceneConditionalLimit w \<longrightarrow>
        (\<exists>out w'. rejectDeliveries anc_forms eng clk objects w = Some (out, w')))
   \<and> (\<forall>deliveries w'. objects \<noteq> [] \<longrightarrow>
        getDeliveries anc_forms eng clk
          (Some (no_options\<lparr>patientIds := Some (map patient_id objects),
                             include_docs := Some True\<rparr>)) w = Some (Inr deliveries, w') \<longrightarrow>
        (list_all has_doc (rows deliveries) \<longrightarrow>
           rejectDeliveries anc_forms eng clk objects w =
             Some (Inr (filter (\<lambda>object. patient_id object \<notin> set (row_ids (rows deliveries)))
                          objects), w'))
        \<and> (\<forall>undelivered w''.
             rejectDeliveries anc_forms eng clk objects w = Some (Inr undelivered, w'') \<longrightarrow>
             undelivered =
               filter (\<lambda>object. patient_id object \<notin> set (row_ids (rows deliveries))) objects))"
proof (intro conjI allI impI)
  show "rejectDeliveries anc_forms eng clk [] w = Some (Inr [], w)"
    by (simp add: rejectDeliveries_def)
next
  assume "0 < luceneConditionalLimit w"
  then obtain out w' where "getDeliveries anc_forms eng clk
          (Some (no_options\<lparr>patientIds := Some (map patient_id objects),
                             include_docs := Some True\<rparr>)) w = Some (out, w')"
    using getDeliveries_returns by blast
  then show "\<exists>out w'. rejectDeliveries anc_forms eng clk objects w = Some (out, w')"
    by (cases out) (simp_all add: rejectDeliveries_def)
next
  fix deliveries w'
  assume ne: "objects \<noteq> []"
    and run: "getDeliveries anc_forms eng clk
          (Some (no_options\<lparr>patientIds := Some (map patient_id objects),
                             include_docs := Some True\<rparr>)) w = Some (Inr deliveries, w')"
  have rd: "rejectDeliveries anc_forms eng clk objects w =
      Some (reject_delivered objects (rows deliveries), w')"
    using ne run by (simp add: rejectDeliveries_def)
  {
    assume "list_all has_doc (rows deliveries)"
    then obtain undelivered where
      u: "reject_delivered objects (rows deliveries) = (Inr undelivered :: 'a failure + document list)"
      using reject_delivered_docs by blast
    show "rejectDeliveries anc_forms eng clk objects w =
             Some (Inr (filter (\<lambda>object. patient_id object \<notin> set (row_ids (rows deliveries)))
                          objects), w')"
      using rd u reject_delivered_Inr [OF u] by simp
  }
  {
    fix undelivered w''
    assume "rejectDeliveries anc_forms eng clk objects w = Some (Inr undelivered, w'')"
    then have "reject_delivered objects (rows deliveries) = (Inr undelivered :: 'a failure + document list)"
      using rd by simp
    then show "undelivered =
               filter (\<lambda>object. patient_id object \<notin> set (row_ids (rows deliveries))) objects"
      by (rule reject_delivered_Inr)
  }
qed

theorem rejectDeliveries_antijoin_witness:
  "acbd \<noteq> []
   \<and> getDeliveries Map.empty scripted ny_clock (Some acbd_options) delivered_world
       = Some (Inr \<lparr>total_rows = Num 2, rows = [row_for ''A'', row_for ''B'']\<rparr>,
               snd (the (getDeliveries Map.empty scripted ny_clock (Some acbd_options) delivered_world)))
   \<and> rejectDeliveries Map.empty scripted ny_clock acbd delivered_world
       = Some (Inr (map entity [''C'', ''D'']),
               snd (the (getDeliveries Map.empty scripted ny_clock (Some acbd_options) delivered_world)))"
proof -
  let ?D = "\<lparr>total_rows = Num 2, rows = [row_for ''A'', row_for ''B'']\<rparr>"
  let ?W = "snd (the (getDeliveries Map.empty scripted ny_clock (Some acbd_options) delivered_world))"
  have ne: "acbd \<noteq> []"
    by (simp add: acbd_def)
  have g: "getDeliveries Map.empty scripted ny_clock (Some acbd_options) delivered_world
      = Some (Inr ?D, ?W)"
    by code_simp
  have docs: "list_all has_doc (rows ?D)"
    by (simp add: has_doc_def row_for_def)
  have f: "filter (\<lambda>object. patient_id object \<notin> set (row_ids (rows ?D))) acbd
      = map entity [''C'', ''D'']"
    by (simp add: acbd_def row_for_def entity_def)
  note t = rejectDeliveries_antijoin [of Map.empty scripted ny_clock delivered_world acbd]
  note t3 = t [THEN conjunct2, THEN conjunct2, rule_format, OF ne g [unfolded acbd_options_def]]
  note r = t3 [THEN conjunct1, THEN mp, OF docs, folded acbd_options_def]
  have r': "rejectDeliveries Map.empty scripted ny_clock acbd delivered_world
      = Some (Inr (map entity [''C'', ''D'']), ?W)"
    using r by (simp only: f)
  show ?thesis
    by (intro conjI ne g r')
qed

lemma findWhere_None: "findWhere objects pid = None \<Longrightarrow> pid \<notin> patient_id ` set objects"
  by (induction objects) (auto split: if_splits)

lemma findWhere_Some:
  "findWhere objects pid = Some i \<Longrightarrow>
     i < length objects \<and> patient_id (objects ! i) = pid
     \<and> (\<forall>j<i. patient_id (objects ! j) \<noteq> pid)"
proof (induction objects arbitrary: i)
  case Nil
  then show ?case by simp
next
  case (Cons object objects)
  show ?case
  proof (cases "patient_id object = pid")
    case True
    then show ?thesis
      using Cons.prems by simp
  next
    case False
    then obtain k where k: "findWhere objects pid = Some k" "i = Suc k"
      using Cons.prems by auto
    have "patient_id ((object # objects) ! j) \<noteq> pid" if "j < Suc k" for j
      using that False Cons.IH [OF k(1)] by (cases j) simp_all
    then show ?thesis
      using Cons.IH [OF k(1)] k(2) by simp
  qed
qed

lemma marks_ids:
  assumes "marks S objects cur" and "i < length objects"
  shows "patient_id (cur ! i) = patient_id (objects ! i)"
  using assms by (simp add: marks_def marked_def)

lemma marks_miss:
  assumes "marks S objects cur" and "findWhere cur pid = None"
  shows "marks (insert pid S) objects cur"
proof -
  have "patient_id (objects ! i) \<noteq> pid" if "i < length objects" for i
  proof -
    have "length cur = length objects"
      using assms(1) by (simp add: marks_def)
    then have "cur ! i \<in> set cur"
      using that by (intro nth_mem) simp
    then show ?thesis
      using findWhere_None [OF assms(2)] marks_ids [OF assms(1) that] by (metis imageI)
  qed
  then show ?thesis
    using assms(1) by (simp add: marks_def)
qed

lemma marks_hit:
  assumes "marks S objects cur" and "findWhere cur pid = Some i"
  shows "marks (insert pid S) objects (cur[i := (cur ! i)\<lparr>high_risk := Some True\<rparr>])"
proof -
  have len: "length cur = length objects"
    using assms(1) by (simp add: marks_def)
  have i: "i < length objects" "patient_id (cur ! i) = pid"
    "\<forall>j<i. patient_id (cur ! j) \<noteq> pid"
    using findWhere_Some [OF assms(2)] len by simp_all
  have pid_i: "patient_id (objects ! i) = pid"
    using marks_ids [OF assms(1) i(1)] i(2) by simp
  have before: "patient_id (objects ! j) \<noteq> pid" if "j < i" for j
  proof -
    have "j < length objects"
      using that i(1) by simp
    then show ?thesis
      using marks_ids [OF assms(1)] i(3) that by auto
  qed
  have first_i: "first_with objects i"
    using before pid_i by (simp add: first_with_def)
  have only_i: "k = i" if "k < length objects" "patient_id (objects ! k) = pid"
    "first_with objects k" for k
  proof (rule ccontr)
    assume "k \<noteq> i"
    then consider "k < i" | "i < k" by arith
    then show False
    proof cases
      case 1
      then show ?thesis using before that(2) by blast
    next
      case 2
      then show ?thesis using that(2,3) pid_i by (simp add: first_with_def)
    qed
  qed
  have cur_i: "(cur ! i)\<lparr>high_risk := Some True\<rparr> = marked (objects ! i)"
    using assms(1) i(1) by (simp add: marks_def marked_def)
  have "cur[i := (cur ! i)\<lparr>high_risk := Some True\<rparr>] ! k =
      (if patient_id (objects ! k) \<in> insert pid S \<and> first_with objects k
       then marked (objects ! k) else objects ! k)" if k: "k < length objects" for k
  proof (cases "k = i")
    case True
    then show ?thesis
      using i(1) len pid_i first_i cur_i by simp
  next
    case False
    then have "\<not> (patient_id (objects ! k) = pid \<and> first_with objects k)"
      using only_i [OF k] by blast
    then show ?thesis
      using False k assms(1) by (auto simp add: marks_def)
  qed
  then show ?thesis
    using len by (simp add: marks_def)
qed

lemma each_risk_marks:
  "marks S objects cur \<Longrightarrow>
     each_risk risks cur = (Inr res :: 'e failure + document list) \<Longrightarrow>
     marks (S \<union> set (row_ids risks)) objects res"
proof (induction risks arbitrary: S cur)
  case Nil
  then show ?case by simp
next
  case (Cons risk rest)
  from Cons.prems(2) obtain d where d: "doc risk = Some d"
    by (cases "doc risk") simp_all
  have ids: "S \<union> set (row_ids (risk # rest)) = insert (patient_id d) S \<union> set (row_ids rest)"
    using d by simp
  show ?case
  proof (cases "findWhere cur (patient_id d)")
    case None
    then have "each_risk rest cur = (Inr res :: 'e failure + document list)"
      using Cons.prems(2) d by simp
    then show ?thesis
      using Cons.IH [OF marks_miss [OF Cons.prems(1) None]] ids by simp
  next
    case (Some i)
    then have "each_risk rest (cur[i := (cur ! i)\<lparr>high_risk := Some True\<rparr>])
        = (Inr res :: 'e failure + document list)"
      using Cons.prems(2) d by simp
    then show ?thesis
      using Cons.IH [OF marks_hit [OF Cons.prems(1) Some]] ids by simp
  qed
qed

lemma marks_start: "marks {} objects objects"
  by (simp add: marks_def)

lemma getHighRisk_returns:
  assumes "0 < luceneConditionalLimit w"
  shows "\<exists>out w'. getHighRisk anc_forms eng options w = Some (out, w')"
proof -
  have "\<exists>out w'. as_fetched (ftiWithPatientIds eng opts w) = Some (out, w')"
    for opts :: options
  proof -
    obtain out w' where "ftiWithPatientIds eng opts w = Some (out, w')"
      using ftiWithPatientIds_returns [OF assms] by blast
    then show ?thesis
      by (cases out) (simp_all add: as_fetched_def)
  qed
  then show ?thesis
    by (simp add: getHighRisk_def split: option.splits)
qed

text \<open>
  C8. With a positive limit \<open>injectRisk\<close> returns. When it passes entities to the
  callback, they are as many as the input and in the same positions; the entity at a
  position is the input entity with \<open>high_risk\<close> set to true when its identifier is
  one of the fetched flags and no earlier entity has that identifier, and is the
  input entity unchanged otherwise.
\<close>

theorem injectRisk_marks:
  "(0 < luceneConditionalLimit w \<longrightarrow>
      (\<exists>out w'. injectRisk anc_forms eng objects w = Some (out, w')))
   \<and> (\<forall>objects' w'. injectRisk anc_forms eng objects w = Some (Inr objects', w') \<longrightarrow>
        (\<exists>risks.
           getHighRisk anc_forms eng
             (Some (no_options\<lparr>patientIds := Some (map patient_id objects)\<rparr>)) w
             = Some (Inr risks, w')
         \<and> length objects' = length objects
         \<and> (\<forall>i<length objects.
               objects' ! i =
                 (if patient_id (objects ! i) \<in> flagged_ids risks
                     \<and> (\<forall>j<i. patient_id (objects ! j) \<noteq> patient_id (objects ! i))
                  then (objects ! i)\<lparr>high_risk := Some True\<rparr>
                  else objects ! i))))"
proof (intro conjI allI impI)
  assume "0 < luceneConditionalLimit w"
  then obtain out w' where "getHighRisk anc_forms eng
      (Some (no_options\<lparr>patientIds := Some (map patient_id objects)\<rparr>)) w = Some (out, w')"
    using getHighRisk_returns by blast
  then show "\<exists>out w'. injectRisk anc_forms eng objects w = Some (out, w')"
    by (cases out) (simp_all add: injectRisk_def Let_def split: option.splits)
next
  fix objects' w'
  assume run: "injectRisk anc_forms eng objects w = Some (Inr objects', w')"
  let ?fetch = "getHighRisk anc_forms eng
      (Some (no_options\<lparr>patientIds := Some (map patient_id objects)\<rparr>)) w"
  from run obtain risks where risks: "?fetch = Some (Inr risks, w')"
    and res: "(case rows_of risks of
                 None \<Rightarrow> Inr objects
               | Some rs \<Rightarrow> (each_risk rs objects :: 'a failure + document list)) = Inr objects'"
    by (auto simp add: injectRisk_def Let_def split: option.splits sum.splits)
  have "marks (flagged_ids risks) objects objects'"
  proof (cases "rows_of risks")
    case None
    then show ?thesis
      using res marks_start by (simp add: flagged_ids_def)
  next
    case (Some rs)
    then have "each_risk rs objects = (Inr objects' :: 'a failure + document list)"
      using res by simp
    from each_risk_marks [OF marks_start this] show ?thesis
      using Some by (simp add: flagged_ids_def)
  qed
  then have "length objects' = length objects
         \<and> (\<forall>i<length objects.
               objects' ! i =
                 (if patient_id (objects ! i) \<in> flagged_ids risks
                     \<and> (\<forall>j<i. patient_id (objects ! j) \<noteq> patient_id (objects ! i))
                  then (objects ! i)\<lparr>high_risk := Some True\<rparr>
                  else objects ! i))"
    unfolding marks_def first_with_def marked_def by blast
  then show "\<exists>risks.
           ?fetch = Some (Inr risks, w')
         \<and> length objects' = length objects
         \<and> (\<forall>i<length objects.
               objects' ! i =
                 (if patient_id (objects ! i) \<in> flagged_ids risks
                     \<and> (\<forall>j<i. patient_id (objects ! j) \<noteq> patient_id (objects ! i))
                  then (objects ! i)\<lparr>high_risk := Some True\<rparr>
                  else objects ! i))"
    using risks by blast
qed

theorem injectRisk_marks_witness:
  "injectRisk Map.empty scripted acad flag_world
     = Some (Inr [marked (entity ''A''), entity ''C'', entity ''A'', marked (entity ''D'')],
             snd (the (injectRisk Map.empty scripted acad flag_world)))
   \<and> (\<exists>risks.
         getHighRisk Map.empty scripted
           (Some (no_options\<lparr>patientIds := Some (map patient_id acad)\<rparr>)) flag_world
           = Some (Inr risks, snd (the (injectRisk Map.empty scripted acad flag_world)))
       \<and> length [marked (entity ''A''), entity ''C'', entity ''A'', marked (entity ''D'')]
           = length acad
       \<and> (\<forall>i<length acad.
             [marked (entity ''A''), entity ''C'', entity ''A'', marked (entity ''D'')] ! i =
               (if patient_id (acad ! i) \<in> flagged_ids risks
                   \<and> (\<forall>j<i. patient_id (acad ! j) \<noteq> patient_id (acad ! i))
                then (acad ! i)\<lparr>high_risk := Some True\<rparr>
                else acad ! i)))"
proof -
  have ev: "injectRisk Map.empty scripted acad flag_world
     = Some (Inr [marked (entity ''A''), entity ''C'', entity ''A'', marked (entity ''D'')],
             snd (the (injectRisk Map.empty scripted acad flag_world)))"
    by code_simp
  note t = injectRisk_marks [where w = flag_world and anc_forms = Map.empty
      and eng = scripted and objects = acad, THEN conjunct2, rule_format, OF ev]
  show ?thesis
    by (intro conjI ev t)
qed

end
